theory Spec2Isabelle
  imports Complex_Main
begin

section \<open>The Wheel component of the roulette: data model\<close>

text \<open>
  The component is \<^verbatim>\<open>src/dist/components/Wheel/index.js\<close>. Its numbers are JavaScript
  numbers. The model keeps the finite ones as reals and keeps \<^verbatim>\<open>NaN\<close> apart, because the
  code tests for it (\<^verbatim>\<open>Number.isNaN\<close>, \<^verbatim>\<open>x || 1\<close>, \<^verbatim>\<open>x >= 0\<close>). Infinite values and the
  rounding of floating point are outside the model.
\<close>

datatype jsnum = Num real | NaN

text \<open>
  One entry of the \<^verbatim>\<open>data\<close> prop. Only \<^verbatim>\<open>optionSize\<close> reaches the prize map and the
  rotation; it may be absent (\<open>None\<close>). The label, style and image of a segment are read
  by the drawing code only and are left out.
\<close>

record segment =
  optionSize :: "jsnum option"

datatype error = TypeError

text \<open>
  Reading \<^verbatim>\<open>xs[k]\<close> for an integer \<open>k\<close>: \<^verbatim>\<open>undefined\<close> (\<open>None\<close>) outside the array.
\<close>

definition js_index :: "'a list \<Rightarrow> int \<Rightarrow> 'a option" where
  "js_index xs k = (if 0 \<le> k \<and> k < int (length xs) then Some (xs ! nat k) else None)"

text \<open>
  Reading \<^verbatim>\<open>xs[x]\<close> for a number \<open>x\<close>: only an integral value in range names an element;
  a fraction, a negative number or \<^verbatim>\<open>NaN\<close> gives \<^verbatim>\<open>undefined\<close>.
\<close>

definition js_index_num :: "'a list \<Rightarrow> jsnum \<Rightarrow> 'a option" where
  "js_index_num xs x =
     (case x of
        NaN \<Rightarrow> None
      | Num v \<Rightarrow> (if of_int \<lfloor>v\<rfloor> = v then js_index xs \<lfloor>v\<rfloor> else None))"

text \<open>
  The remainder \<^verbatim>\<open>a % n\<close> of an integer by an array length: the sign follows the
  dividend, and the result is \<^verbatim>\<open>NaN\<close> (\<open>None\<close>) when \<open>n\<close> is zero.
\<close>

definition js_rem :: "int \<Rightarrow> nat \<Rightarrow> int option" where
  "js_rem a n = (if n = 0 then None else Some (sgn a * (\<bar>a\<bar> mod int n)))"

section \<open>Building the prize map (data normalisation, lines 91 to 139)\<close>

text \<open>
  \<^verbatim>\<open>wheelDataAux[i].optionSize || 1\<close>: the falsy values (absent, \<open>0\<close>, \<^verbatim>\<open>NaN\<close>) give 1,
  every other number is kept, a negative one too.
\<close>

definition sizeOrOne :: "jsnum option \<Rightarrow> real" where
  "sizeOrOne w =
     (case w of
        None \<Rightarrow> 1
      | Some NaN \<Rightarrow> 1
      | Some (Num v) \<Rightarrow> (if v = 0 then 1 else v))"

text \<open>
  The inner loop
  \<^verbatim>\<open>for (var j = 0; j < (optionSize || 1); j++) auxPrizeMap[i][j] = initialMapNum++;\<close>
  on the row pushed just before. The row starts empty and \<open>j\<close> counts from 0, so \<open>j\<close> is
  the length of the row at every store and the store appends.
\<close>

function fillRow :: "real \<Rightarrow> nat \<Rightarrow> nat list \<Rightarrow> nat \<Rightarrow> nat list \<times> nat" where
  "fillRow bound j row initialMapNum =
     (if real j < bound
      then fillRow bound (Suc j) (row @ [initialMapNum]) (Suc initialMapNum)
      else (row, initialMapNum))"
  by pat_completeness auto
termination
proof (relation "measure (\<lambda>(bound, j, row, initialMapNum). nat \<lceil>bound\<rceil> - j)")
  show "wf (measure (\<lambda>(bound, j, row, initialMapNum). nat \<lceil>bound\<rceil> - j))"
    by simp
next
  fix bound :: real and j :: nat and row :: "nat list" and initialMapNum :: nat
  assume "real j < bound"
  then have "int j < \<lceil>bound\<rceil>"
    by (simp add: less_ceiling_iff)
  then have "j < nat \<lceil>bound\<rceil>"
    by linarith
  then show "((bound, Suc j, row @ [initialMapNum], Suc initialMapNum),
              (bound, j, row, initialMapNum))
             \<in> measure (\<lambda>(bound, j, row, initialMapNum). nat \<lceil>bound\<rceil> - j)"
    by simp
qed

declare fillRow.simps [simp del]

text \<open>
  The outer loop over \<^verbatim>\<open>data\<close> (\<^verbatim>\<open>_loop_1\<close>), threading \<^verbatim>\<open>initialMapNum\<close> and
  \<^verbatim>\<open>auxPrizeMap\<close>: push an empty row, then fill it.
\<close>

fun loop_1 :: "segment list \<Rightarrow> nat \<times> nat list list \<Rightarrow> nat \<times> nat list list" where
  "loop_1 [] s = s"
| "loop_1 (seg # rest) (initialMapNum, auxPrizeMap) =
     (case fillRow (sizeOrOne (optionSize seg)) 0 [] initialMapNum of
        (row, num') \<Rightarrow> loop_1 rest (num', auxPrizeMap @ [row]))"

definition buildPrizeMap :: "segment list \<Rightarrow> nat list list" where
  "buildPrizeMap dat = snd (loop_1 dat (0, []))"

text \<open>The number of slots a segment receives: the iterations of the inner loop.\<close>

definition slotCount :: "segment \<Rightarrow> nat" where
  "slotCount seg = nat \<lceil>sizeOrOne (optionSize seg)\<rceil>"

section \<open>Helpers of the utils module\<close>

text \<open>
  \<^verbatim>\<open>getQuantity\<close> and \<^verbatim>\<open>getRotationDegrees\<close> are imported from \<^verbatim>\<open>../../utils\<close>, which is
  not among the sources. The component is modelled over any pair of such helpers. The
  slot handed to \<^verbatim>\<open>getRotationDegrees\<close> may be \<^verbatim>\<open>undefined\<close> (\<open>None\<close>); its third
  argument is omitted (\<open>None\<close>) by the spin and \<^verbatim>\<open>false\<close> for the starting option. The
  helpers are taken to return; what they draw at random inside is part of the value
  they return for the call.
\<close>

record utils =
  getQuantity :: "nat list list \<Rightarrow> jsnum"
  getRotationDegrees :: "nat option \<Rightarrow> jsnum \<Rightarrow> bool option \<Rightarrow> jsnum"

text \<open>
  Modelled from the spec: \<^verbatim>\<open>getRotationDegrees\<close> of the utils module is missing from
  the sources. Section 4.1 of the specification gives the base component of the angle
  of a slot: \<^verbatim>\<open>360 / totalSlots * slotId\<close> plus half a slot width, before jitter and
  whole turns.
\<close>

definition slotBaseAngle :: "nat \<Rightarrow> real \<Rightarrow> real" where
  "slotBaseAngle slotId totalSlots =
     360 / totalSlots * real slotId + (360 / totalSlots) / 2"

section \<open>Props and state of the component\<close>

record props =
  mustStartSpinning :: bool
  prizeNumber :: jsnum
  data :: "segment list"
  startingOptionIndex :: jsnum

text \<open>
  The state hooks of lines 71 to 77 and the ref \<^verbatim>\<open>mustStopSpinning\<close> of line 82.
  \<open>depMustStartSpinning\<close> is the value of the dependency array \<^verbatim>\<open>[mustStartSpinning]\<close> that
  React remembers from the previous render (\<open>None\<close> before the first one).
  Three counters stand for what leaves the component: \<open>pendingTimers\<close> counts the
  \<^verbatim>\<open>setTimeout\<close> callbacks scheduled and not yet run, \<open>stopCalls\<close> the calls of
  \<^verbatim>\<open>onStopSpinning\<close>, \<open>spinStarts\<close> the calls of \<^verbatim>\<open>startSpinning\<close>. No transition reads
  \<open>stopCalls\<close> or \<open>spinStarts\<close>. The state that only the drawing uses (wheel data, image
  and font counters, the updater toggle) is left out.
\<close>

record wheel =
  prizeMap :: "nat list list"
  startRotationDegrees :: jsnum
  finalRotationDegrees :: jsnum
  hasStartedSpinning :: bool
  hasStoppedSpinning :: bool
  isCurrentlySpinning :: bool
  isDataUpdated :: bool
  mustStopSpinning :: bool
  depMustStartSpinning :: "bool option"
  pendingTimers :: nat
  stopCalls :: nat
  spinStarts :: nat

definition initWheel :: wheel where
  "initWheel =
     \<lparr>prizeMap = [[0]],
      startRotationDegrees = Num 0,
      finalRotationDegrees = Num 0,
      hasStartedSpinning = False,
      hasStoppedSpinning = False,
      isCurrentlySpinning = False,
      isDataUpdated = False,
      mustStopSpinning = False,
      depMustStartSpinning = None,
      pendingTimers = 0,
      stopCalls = 0,
      spinStarts = 0\<rparr>"

section \<open>The transitions\<close>

text \<open>\<^verbatim>\<open>startSpinning\<close> (lines 202 to 214), up to the scheduling of the timer.\<close>

definition startSpinning :: "wheel \<Rightarrow> wheel" where
  "startSpinning st =
     st\<lparr>hasStartedSpinning := True,
        hasStoppedSpinning := False,
        mustStopSpinning := True,
        pendingTimers := pendingTimers st + 1,
        spinStarts := spinStarts st + 1\<rparr>"

text \<open>The body of the callback given to \<^verbatim>\<open>setTimeout\<close> (lines 207 to 212).\<close>

definition timerCallback :: "wheel \<Rightarrow> wheel" where
  "timerCallback st =
     (if mustStopSpinning st
      then st\<lparr>mustStopSpinning := False,
              hasStartedSpinning := False,
              hasStoppedSpinning := True,
              stopCalls := stopCalls st + 1\<rparr>
      else st)"

text \<open>A scheduled timer runs its callback once; nothing runs when none is scheduled.\<close>

definition timerFires :: "wheel \<Rightarrow> wheel" where
  "timerFires st =
     (if pendingTimers st = 0 then st
      else timerCallback (st\<lparr>pendingTimers := pendingTimers st - 1\<rparr>))"

text \<open>
  The body of the effect on \<^verbatim>\<open>[mustStartSpinning]\<close> (lines 179 to 195). \<open>r\<close> is the value
  of \<^verbatim>\<open>Math.random()\<close> at line 188. \<^verbatim>\<open>!prizeMap\<close> is never true of an array; a row of the
  prize map is always an array, so \<^verbatim>\<open>!Array.isArray(prizeRow)\<close> is the case of a missing
  row.
\<close>

definition spinStartEffect :: "utils \<Rightarrow> props \<Rightarrow> real \<Rightarrow> wheel \<Rightarrow> wheel" where
  "spinStartEffect U p r st =
     (if mustStartSpinning p \<and> \<not> isCurrentlySpinning st then
        (if length (prizeMap st) = 0 then st
         else
           (case js_index_num (prizeMap st) (prizeNumber p) of
              None \<Rightarrow> st
            | Some prizeRow \<Rightarrow>
                (if length prizeRow = 0 then st
                 else
                   (let st1 = startSpinning (st\<lparr>isCurrentlySpinning := True\<rparr>);
                        selectedPrize = js_index prizeRow \<lfloor>r * real (length prizeRow)\<rfloor>;
                        totalQuantity = getQuantity U (prizeMap st)
                    in if totalQuantity = NaN then st1
                       else st1\<lparr>finalRotationDegrees :=
                                 getRotationDegrees U selectedPrize totalQuantity None\<rparr>))))
      else st)"

text \<open>
  A render with the given props: React runs the effect only when \<^verbatim>\<open>mustStartSpinning\<close>
  differs from the remembered dependency, and remembers the new value.
\<close>

definition renderTrigger :: "utils \<Rightarrow> props \<Rightarrow> real \<Rightarrow> wheel \<Rightarrow> wheel" where
  "renderTrigger U p r st =
     (if depMustStartSpinning st = Some (mustStartSpinning p) then st
      else (spinStartEffect U p r st)\<lparr>depMustStartSpinning := Some (mustStartSpinning p)\<rparr>)"

text \<open>The body of the effect on \<^verbatim>\<open>[hasStoppedSpinning]\<close> (lines 196 to 201).\<close>

definition stoppedEffect :: "wheel \<Rightarrow> wheel" where
  "stoppedEffect st =
     (if hasStoppedSpinning st
      then st\<lparr>isCurrentlySpinning := False,
              startRotationDegrees := finalRotationDegrees st\<rparr>
      else st)"

text \<open>
  \<^verbatim>\<open>setStartingOption\<close> (lines 215 to 222). The test reads the prop, the index is computed
  from the argument. \<^verbatim>\<open>optionMap[idx]\<close> is \<^verbatim>\<open>undefined\<close> when \<open>idx\<close> is \<^verbatim>\<open>NaN\<close> or out of
  range, and reading an element of \<^verbatim>\<open>undefined\<close> throws a \<^verbatim>\<open>TypeError\<close>.
\<close>

definition setStartingOption ::
    "utils \<Rightarrow> props \<Rightarrow> jsnum \<Rightarrow> nat list list \<Rightarrow> wheel \<Rightarrow> error + wheel" where
  "setStartingOption U p optionIndex optionMap st =
     (case startingOptionIndex p of
        NaN \<Rightarrow> Inr st
      | Num s \<Rightarrow>
          (if 0 \<le> s then
             (case optionIndex of
                NaN \<Rightarrow> Inl TypeError
              | Num v \<Rightarrow>
                  (case js_rem \<lfloor>v\<rfloor> (length optionMap) of
                     None \<Rightarrow> Inl TypeError
                   | Some idx \<Rightarrow>
                       (case js_index optionMap idx of
                          None \<Rightarrow> Inl TypeError
                        | Some row \<Rightarrow>
                            (let startingOption = js_index row (int (length row div 2))
                             in Inr (st\<lparr>startRotationDegrees :=
                                        getRotationDegrees U startingOption
                                          (getQuantity U optionMap) (Some False)\<rparr>)))))
           else Inr st))"

text \<open>
  The effect on \<^verbatim>\<open>[data, backgroundColors, textColors]\<close> (lines 89 to 178), as far as the
  modelled state goes: \<^verbatim>\<open>setPrizeMap\<close>, \<^verbatim>\<open>setStartingOption\<close>, \<^verbatim>\<open>setIsDataUpdated\<close>.
\<close>

definition normalizeData :: "utils \<Rightarrow> props \<Rightarrow> wheel \<Rightarrow> error + wheel" where
  "normalizeData U p st =
     (let auxPrizeMap = buildPrizeMap (data p)
      in case setStartingOption U p (startingOptionIndex p) auxPrizeMap
                (st\<lparr>prizeMap := auxPrizeMap\<rparr>) of
           Inl e \<Rightarrow> Inl e
         | Inr st' \<Rightarrow> Inr (st'\<lparr>isDataUpdated := True\<rparr>))"

text \<open>
  Runs of the component. An event is a render with new props (the spin-start effect runs
  if its dependency changed), a change of the data (the normalisation effect runs), a
  timer firing, or a run of the effect on \<^verbatim>\<open>[hasStoppedSpinning]\<close>. React runs that last
  effect after the render in which \<^verbatim>\<open>hasStoppedSpinning\<close> changed; a run may contain it at
  any place. An exception ends the run.
\<close>

datatype event =
    Render props real
  | DataChange props
  | TimerFires
  | StoppedEffect

fun step :: "utils \<Rightarrow> event \<Rightarrow> wheel \<Rightarrow> error + wheel" where
  "step U (Render p r) st = Inr (renderTrigger U p r st)"
| "step U (DataChange p) st = normalizeData U p st"
| "step U TimerFires st = Inr (timerFires st)"
| "step U StoppedEffect st = Inr (stoppedEffect st)"

fun run :: "utils \<Rightarrow> event list \<Rightarrow> wheel \<Rightarrow> error + wheel" where
  "run U [] st = Inr st"
| "run U (e # es) st =
     (case step U e st of
        Inl err \<Rightarrow> Inl err
      | Inr st' \<Rightarrow> run U es st')"

section \<open>The timer invariant and example inputs\<close>

text \<open>
  What holds of the timer in every state the component reaches: at most one timer is
  scheduled; the ref \<^verbatim>\<open>mustStopSpinning\<close> is set exactly while one is scheduled; while one
  is scheduled the wheel is spinning and has not stopped; every call of \<^verbatim>\<open>startSpinning\<close>
  is matched by a scheduled timer or by one call of \<^verbatim>\<open>onStopSpinning\<close>.
\<close>

definition timerInv :: "wheel \<Rightarrow> bool" where
  "timerInv st =
     (pendingTimers st \<le> 1 \<and>
      mustStopSpinning st = (pendingTimers st = 1) \<and>
      (pendingTimers st = 0 \<or> (isCurrentlySpinning st \<and> \<not> hasStoppedSpinning st)) \<and>
      stopCalls st + pendingTimers st = spinStarts st)"

text \<open>
  Two pairs of helpers to instantiate the theorems with. The first counts the slots of the
  prize map and returns the base angle of the specification. The second takes the
  quantity to be the last slot id of the last row plus one, which is \<^verbatim>\<open>NaN\<close> when that row
  is empty.
\<close>

abbreviation exampleUtils :: utils where
  "exampleUtils \<equiv>
     \<lparr>getQuantity = (\<lambda>m. Num (real (length (concat m)))),
      getRotationDegrees =
        (\<lambda>slot q randomDif.
           case slot of
             None \<Rightarrow> NaN
           | Some k \<Rightarrow> (case q of NaN \<Rightarrow> NaN | Num t \<Rightarrow> Num (slotBaseAngle k t)))\<rparr>"

abbreviation lastSlotUtils :: utils where
  "lastSlotUtils \<equiv>
     \<lparr>getQuantity =
        (\<lambda>m. if m = [] then NaN
              else if last m = [] then NaN
              else Num (real (last (last m)) + 1)),
      getRotationDegrees = (\<lambda>slot q randomDif. NaN)\<rparr>"

text \<open>The wheel of the specification's scenario (weights 1 and 3), and props that ask for no spin.\<close>

abbreviation wheelOneThree :: "segment list" where
  "wheelOneThree \<equiv> [\<lparr>optionSize = Some (Num 1)\<rparr>, \<lparr>optionSize = Some (Num 3)\<rparr>]"

abbreviation idleProps :: props where
  "idleProps \<equiv>
     \<lparr>mustStartSpinning = False, prizeNumber = Num 0, data = [],
      startingOptionIndex = Num (- 1)\<rparr>"

text \<open>Props that ask for a spin to segment 0.\<close>

abbreviation spinProps :: props where
  "spinProps \<equiv>
     \<lparr>mustStartSpinning = True, prizeNumber = Num 0, data = [],
      startingOptionIndex = Num (- 1)\<rparr>"

section \<open>Properties of the prize map\<close>

lemma upt_shift:
  "((row @ [n]) @ [Suc n ..< Suc n + m], Suc n + m) = (row @ [n ..< n + Suc m], n + Suc m)"
proof -
  have "[n ..< n + Suc m] = n # [Suc n ..< Suc n + m]"
    by (simp add: upt_conv_Cons)
  then show ?thesis
    by simp
qed

lemma fillRow_eq:
  "fillRow bound j row n = (row @ [n ..< n + (nat \<lceil>bound\<rceil> - j)], n + (nat \<lceil>bound\<rceil> - j))"
proof (induction bound j row n rule: fillRow.induct)
  case (1 bound j row n)
  show ?case
  proof (cases "real j < bound")
    case True
    then have "int j < \<lceil>bound\<rceil>"
      by (simp add: less_ceiling_iff)
    then have lt: "j < nat \<lceil>bound\<rceil>"
      by linarith
    then have k: "nat \<lceil>bound\<rceil> - j = Suc (nat \<lceil>bound\<rceil> - Suc j)"
      by simp
    have "fillRow bound j row n = fillRow bound (Suc j) (row @ [n]) (Suc n)"
      using True by (subst fillRow.simps) simp
    also have "\<dots> = ((row @ [n]) @ [Suc n ..< Suc n + (nat \<lceil>bound\<rceil> - Suc j)],
                     Suc n + (nat \<lceil>bound\<rceil> - Suc j))"
      using "1.IH" [OF True] .
    also have "\<dots> = (row @ [n ..< n + (nat \<lceil>bound\<rceil> - j)], n + (nat \<lceil>bound\<rceil> - j))"
      unfolding k by (rule upt_shift)
    finally show ?thesis .
  next
    case False
    then have "\<lceil>bound\<rceil> \<le> int j"
      by (simp add: ceiling_le_iff)
    then have "nat \<lceil>bound\<rceil> - j = 0"
      by linarith
    moreover have "fillRow bound j row n = (row, n)"
      using False by (subst fillRow.simps) simp
    ultimately show ?thesis
      by simp
  qed
qed

lemma loop_1_Cons:
  "loop_1 (seg # rest) (n, acc) =
     loop_1 rest (n + slotCount seg, acc @ [[n ..< n + slotCount seg]])"
  by (simp add: fillRow_eq slotCount_def)

lemma loop_1_fst:
  "fst (loop_1 dat (n, acc)) = n + sum_list (map slotCount dat)"
  by (induction dat arbitrary: n acc) (simp_all add: loop_1_Cons del: loop_1.simps(2))

lemma loop_1_length:
  "length (snd (loop_1 dat (n, acc))) = length acc + length dat"
  by (induction dat arbitrary: n acc) (simp_all add: loop_1_Cons del: loop_1.simps(2))

lemma loop_1_prefix:
  "i < length acc \<Longrightarrow> snd (loop_1 dat (n, acc)) ! i = acc ! i"
  by (induction dat arbitrary: n acc)
     (simp_all add: loop_1_Cons nth_append del: loop_1.simps(2))

lemma loop_1_row:
  "i < length dat \<Longrightarrow>
   snd (loop_1 dat (n, acc)) ! (length acc + i) =
     [n + sum_list (map slotCount (take i dat)) ..<
      n + sum_list (map slotCount (take i dat)) + slotCount (dat ! i)]"
proof (induction dat arbitrary: n acc i)
  case Nil
  then show ?case by simp
next
  case (Cons seg rest)
  show ?case
  proof (cases i)
    case 0
    then show ?thesis
      by (simp add: loop_1_Cons loop_1_prefix del: loop_1.simps(2))
  next
    case (Suc k)
    with Cons.prems have k: "k < length rest"
      by simp
    have "snd (loop_1 rest (n + slotCount seg, acc @ [[n ..< n + slotCount seg]])) !
            (length (acc @ [[n ..< n + slotCount seg]]) + k) =
          [n + slotCount seg + sum_list (map slotCount (take k rest)) ..<
           n + slotCount seg + sum_list (map slotCount (take k rest)) + slotCount (rest ! k)]"
      by (rule Cons.IH [OF k])
    then show ?thesis
      using Suc by (simp add: loop_1_Cons add.assoc del: loop_1.simps(2))
  qed
qed

lemma upt_append_add: "[n ..< n + a] @ [n + a ..< n + a + b] = [n ..< n + a + (b::nat)]"
proof -
  have "[n ..< n + a + b] = [n ..< n + a] @ [n + a ..< n + a + b]"
    by (rule upt_add_eq_append) simp
  then show ?thesis by simp
qed

lemma loop_1_concat:
  "concat (snd (loop_1 dat (n, acc))) = concat acc @ [n ..< n + sum_list (map slotCount dat)]"
proof (induction dat arbitrary: n acc)
  case Nil
  then show ?case by simp
next
  case (Cons seg rest)
  have "concat (snd (loop_1 rest (n + slotCount seg, acc @ [[n ..< n + slotCount seg]]))) =
        concat (acc @ [[n ..< n + slotCount seg]]) @
          [n + slotCount seg ..< n + slotCount seg + sum_list (map slotCount rest)]"
    by (rule Cons.IH)
  also have "\<dots> = concat acc @ [n ..< n + slotCount seg + sum_list (map slotCount rest)]"
    using upt_append_add [of n "slotCount seg" "sum_list (map slotCount rest)"] by simp
  finally show ?case
    by (simp add: loop_1_Cons add.assoc del: loop_1.simps(2))
qed

lemma buildPrizeMap_length: "length (buildPrizeMap dat) = length dat"
  by (simp add: buildPrizeMap_def loop_1_length)

lemma buildPrizeMap_row:
  "i < length dat \<Longrightarrow>
   buildPrizeMap dat ! i =
     [sum_list (map slotCount (take i dat)) ..<
      sum_list (map slotCount (take i dat)) + slotCount (dat ! i)]"
  using loop_1_row [of i dat 0 "[]"] by (simp add: buildPrizeMap_def)

lemma buildPrizeMap_concat:
  "concat (buildPrizeMap dat) = [0 ..< sum_list (map slotCount dat)]"
  using loop_1_concat [of dat 0 "[]"] by (simp add: buildPrizeMap_def)

lemma slotCount_weight:
  "optionSize seg = Some (Num (real w)) \<Longrightarrow> 1 \<le> w \<Longrightarrow> slotCount seg = w"
  by (simp add: slotCount_def sizeOrOne_def)

lemma slotCount_weights:
  assumes "\<forall>w \<in> set ws. 1 \<le> w"
    and "map optionSize dat = map (\<lambda>w. Some (Num (real w))) ws"
  shows "map slotCount dat = ws"
proof (rule nth_equalityI)
  from assms(2) have "length (map optionSize dat) = length (map (\<lambda>w. Some (Num (real w))) ws)"
    by simp
  then show len: "length (map slotCount dat) = length ws"
    by simp
  fix i
  assume "i < length (map slotCount dat)"
  with len have i: "i < length ws" "i < length dat"
    by simp_all
  from assms(2) have "map optionSize dat ! i = map (\<lambda>w. Some (Num (real w))) ws ! i"
    by simp
  with i have "optionSize (dat ! i) = Some (Num (real (ws ! i)))"
    by simp
  moreover from assms(1) i have "1 \<le> ws ! i"
    by simp
  ultimately have "slotCount (dat ! i) = ws ! i"
    by (rule slotCount_weight)
  with i show "map slotCount dat ! i = ws ! i"
    by simp
qed

text \<open>
  Claim C4. For weights \<open>w\<^sub>1 \<dots> w\<^sub>n\<close>, each at least 1, the prize map has one row per
  segment in segment order, row \<open>i\<close> is the ascending block of exactly \<open>w\<^sub>i\<close> slot ids that
  starts where the rows before it end, and the rows laid end to end are \<open>0, 1, \<dots>, \<Sum>w\<^sub>i - 1\<close>:
  a partition of the slot ids with no gap and no overlap.
\<close>

theorem prize_map_partition:
  assumes "\<forall>w \<in> set ws. 1 \<le> w"
    and "map optionSize dat = map (\<lambda>w. Some (Num (real w))) ws"
  shows "length (buildPrizeMap dat) = length ws \<and>
         (\<forall>i < length ws.
            buildPrizeMap dat ! i =
              [sum_list (take i ws) ..< sum_list (take i ws) + ws ! i]) \<and>
         concat (buildPrizeMap dat) = [0 ..< sum_list ws]"
proof -
  have ws: "map slotCount dat = ws"
    using assms by (rule slotCount_weights)
  then have len: "length dat = length ws"
    by (metis length_map)
  have rows: "buildPrizeMap dat ! i =
      [sum_list (take i ws) ..< sum_list (take i ws) + ws ! i]" if "i < length ws" for i
  proof -
    from that len have i: "i < length dat"
      by simp
    have "map slotCount (take i dat) = take i ws"
      using ws by (simp add: take_map [symmetric])
    moreover have "slotCount (dat ! i) = ws ! i"
      using ws i by (metis nth_map)
    ultimately show ?thesis
      using buildPrizeMap_row [OF i] by simp
  qed
  have "concat (buildPrizeMap dat) = [0 ..< sum_list ws]"
    using buildPrizeMap_concat [of dat] ws by simp
  with rows len show ?thesis
    by (simp add: buildPrizeMap_length)
qed

text \<open>The wheel of the specification's scenario: weights 1 and 3, four slots.\<close>

theorem prize_map_partition_witness:
  "(1::nat) \<le> 1 \<and> (1::nat) \<le> 3 \<and>
   length (buildPrizeMap [\<lparr>optionSize = Some (Num 1)\<rparr>, \<lparr>optionSize = Some (Num 3)\<rparr>]) = 2 \<and>
   buildPrizeMap [\<lparr>optionSize = Some (Num 1)\<rparr>, \<lparr>optionSize = Some (Num 3)\<rparr>] ! 1 = [1, 2, 3] \<and>
   concat (buildPrizeMap [\<lparr>optionSize = Some (Num 1)\<rparr>, \<lparr>optionSize = Some (Num 3)\<rparr>]) =
     [0, 1, 2, 3]"
proof -
  have h1: "\<forall>w \<in> set [1, 3 :: nat]. 1 \<le> w"
    by simp
  have h2: "map optionSize [\<lparr>optionSize = Some (Num 1)\<rparr>, \<lparr>optionSize = Some (Num 3)\<rparr>] =
            map (\<lambda>w. Some (Num (real w))) [1, 3 :: nat]"
    by simp
  have u1: "[1 ..< 4] = [1, 2, 3 :: nat]"
    by (simp add: upt_rec)
  have u2: "[0 ..< 4] = [0, 1, 2, 3 :: nat]"
    by (simp add: upt_rec)
  from prize_map_partition [OF h1 h2] have
    "length (buildPrizeMap [\<lparr>optionSize = Some (Num 1)\<rparr>, \<lparr>optionSize = Some (Num 3)\<rparr>]) = 2"
    "buildPrizeMap [\<lparr>optionSize = Some (Num 1)\<rparr>, \<lparr>optionSize = Some (Num 3)\<rparr>] ! 1 = [1 ..< 4]"
    "concat (buildPrizeMap [\<lparr>optionSize = Some (Num 1)\<rparr>, \<lparr>optionSize = Some (Num 3)\<rparr>]) = [0 ..< 4]"
    by simp_all
  with h1 u1 u2 show ?thesis
    by simp
qed

text \<open>
  Claim C6 as stated fails: a negative \<^verbatim>\<open>optionSize\<close> is truthy, so \<^verbatim>\<open>optionSize || 1\<close> keeps
  it, the inner loop does not run, and the segment receives no slot.
\<close>

theorem negative_weight_empty_row:
  "buildPrizeMap [\<lparr>optionSize = Some (Num (- 1))\<rparr>] ! 0 = []"
  using buildPrizeMap_row [of 0 "[\<lparr>optionSize = Some (Num (- 1))\<rparr>]"]
  by (simp add: slotCount_def sizeOrOne_def)

text \<open>
  Claim C6, amended. A segment whose \<^verbatim>\<open>optionSize\<close> is missing, zero or \<^verbatim>\<open>NaN\<close> is treated
  as weight 1 and receives exactly one slot; a segment with a positive weight receives at
  least one slot; a segment with a negative weight receives none.
\<close>

theorem falsy_weight_is_one:
  assumes "i < length dat"
  shows "(optionSize (dat ! i) = None \<or> optionSize (dat ! i) = Some (Num 0) \<or>
          optionSize (dat ! i) = Some NaN \<longrightarrow> length (buildPrizeMap dat ! i) = 1) \<and>
         (\<forall>v. optionSize (dat ! i) = Some (Num v) \<and> 0 < v \<longrightarrow>
            1 \<le> length (buildPrizeMap dat ! i)) \<and>
         (\<forall>v. optionSize (dat ! i) = Some (Num v) \<and> v < 0 \<longrightarrow> buildPrizeMap dat ! i = [])"
proof -
  have len: "length (buildPrizeMap dat ! i) = slotCount (dat ! i)"
    using buildPrizeMap_row [OF assms] by simp
  have pos: "Suc 0 \<le> nat \<lceil>v\<rceil>" if "0 < v" for v :: real
  proof -
    from that have "0 < \<lceil>v\<rceil>" by (simp add: less_ceiling_iff)
    then show ?thesis by linarith
  qed
  have neg: "nat \<lceil>v\<rceil> = 0" if "v < 0" for v :: real
  proof -
    from that have "\<lceil>v\<rceil> \<le> 0" by (simp add: ceiling_le_iff)
    then show ?thesis by simp
  qed
  show ?thesis
    unfolding len
    by (auto simp: slotCount_def sizeOrOne_def pos neg buildPrizeMap_row [OF assms])
qed

text \<open>Four segments: no weight, weight 0, weight 2 and weight -2.\<close>

theorem falsy_weight_is_one_witness:
  "length (buildPrizeMap
     [\<lparr>optionSize = None\<rparr>, \<lparr>optionSize = Some (Num 0)\<rparr>, \<lparr>optionSize = Some (Num 2)\<rparr>,
      \<lparr>optionSize = Some (Num (- 2))\<rparr>] ! 0) = 1 \<and>
   length (buildPrizeMap
     [\<lparr>optionSize = None\<rparr>, \<lparr>optionSize = Some (Num 0)\<rparr>, \<lparr>optionSize = Some (Num 2)\<rparr>,
      \<lparr>optionSize = Some (Num (- 2))\<rparr>] ! 1) = 1 \<and>
   1 \<le> length (buildPrizeMap
     [\<lparr>optionSize = None\<rparr>, \<lparr>optionSize = Some (Num 0)\<rparr>, \<lparr>optionSize = Some (Num 2)\<rparr>,
      \<lparr>optionSize = Some (Num (- 2))\<rparr>] ! 2) \<and>
   buildPrizeMap
     [\<lparr>optionSize = None\<rparr>, \<lparr>optionSize = Some (Num 0)\<rparr>, \<lparr>optionSize = Some (Num 2)\<rparr>,
      \<lparr>optionSize = Some (Num (- 2))\<rparr>] ! 3 = []"
proof -
  let ?d = "[\<lparr>optionSize = None\<rparr>, \<lparr>optionSize = Some (Num 0)\<rparr>, \<lparr>optionSize = Some (Num 2)\<rparr>,
      \<lparr>optionSize = Some (Num (- 2))\<rparr>]"
  have "length (buildPrizeMap ?d ! 0) = 1"
    using falsy_weight_is_one [of 0 ?d] by simp
  moreover have "length (buildPrizeMap ?d ! 1) = 1"
    using falsy_weight_is_one [of 1 ?d] by simp
  moreover have "1 \<le> length (buildPrizeMap ?d ! 2)"
    using falsy_weight_is_one [of 2 ?d] by simp
  moreover have "buildPrizeMap ?d ! 3 = []"
    using falsy_weight_is_one [of 3 ?d] by simp
  ultimately show ?thesis
    by blast
qed

section \<open>The timer invariant holds in every reachable state\<close>

lemma timerInv_init: "timerInv initWheel"
  by (simp add: timerInv_def initWheel_def)

lemma spinStartEffect_spinning:
  "isCurrentlySpinning st \<Longrightarrow> spinStartEffect U p r st = st"
  by (simp add: spinStartEffect_def)

lemma spinStartEffect_cases:
  "spinStartEffect U p r st = st \<or>
   (\<not> isCurrentlySpinning st \<and>
    (spinStartEffect U p r st = startSpinning (st\<lparr>isCurrentlySpinning := True\<rparr>) \<or>
     (\<exists>d. spinStartEffect U p r st =
        (startSpinning (st\<lparr>isCurrentlySpinning := True\<rparr>))\<lparr>finalRotationDegrees := d\<rparr>)))"
  by (auto simp: spinStartEffect_def Let_def split: option.splits)

lemma timerInv_spinStartEffect:
  assumes "timerInv st"
  shows "timerInv (spinStartEffect U p r st)"
proof -
  have idle: "pendingTimers st = 0" if "\<not> isCurrentlySpinning st"
    using assms that by (auto simp: timerInv_def)
  from spinStartEffect_cases [of U p r st] show ?thesis
  proof (elim disjE conjE exE)
    assume "spinStartEffect U p r st = st"
    with assms show ?thesis by simp
  next
    assume "\<not> isCurrentlySpinning st"
      and "spinStartEffect U p r st = startSpinning (st\<lparr>isCurrentlySpinning := True\<rparr>)"
    with assms idle show ?thesis
      by (simp add: timerInv_def startSpinning_def)
  next
    fix d
    assume "\<not> isCurrentlySpinning st"
      and "spinStartEffect U p r st =
        (startSpinning (st\<lparr>isCurrentlySpinning := True\<rparr>))\<lparr>finalRotationDegrees := d\<rparr>"
    with assms idle show ?thesis
      by (simp add: timerInv_def startSpinning_def)
  qed
qed

lemma timerInv_renderTrigger: "timerInv st \<Longrightarrow> timerInv (renderTrigger U p r st)"
  using timerInv_spinStartEffect [of st U p r]
  by (simp add: renderTrigger_def timerInv_def)

lemma timerInv_timerFires: "timerInv st \<Longrightarrow> timerInv (timerFires st)"
  by (auto simp: timerInv_def timerFires_def timerCallback_def)

lemma timerInv_stoppedEffect: "timerInv st \<Longrightarrow> timerInv (stoppedEffect st)"
  by (auto simp: timerInv_def stoppedEffect_def)

lemma setStartingOption_cases:
  "setStartingOption U p oi om st = Inr st' \<Longrightarrow>
   st' = st \<or> (\<exists>d. st' = st\<lparr>startRotationDegrees := d\<rparr>)"
  by (auto simp: setStartingOption_def Let_def split: jsnum.splits option.splits if_splits)

lemma timerInv_normalizeData:
  assumes "timerInv st" and "normalizeData U p st = Inr st'"
  shows "timerInv st'"
proof -
  from assms(2) obtain st1 where
    s: "setStartingOption U p (startingOptionIndex p) (buildPrizeMap (data p))
          (st\<lparr>prizeMap := buildPrizeMap (data p)\<rparr>) = Inr st1"
    and st': "st' = st1\<lparr>isDataUpdated := True\<rparr>"
    by (auto simp: normalizeData_def Let_def split: sum.splits)
  from setStartingOption_cases [OF s] assms(1) have "timerInv st1"
    by (auto simp: timerInv_def)
  with st' show ?thesis
    by (simp add: timerInv_def)
qed

lemma timerInv_step: "timerInv st \<Longrightarrow> step U e st = Inr st' \<Longrightarrow> timerInv st'"
  by (cases e)
     (auto intro: timerInv_renderTrigger timerInv_timerFires timerInv_stoppedEffect
        timerInv_normalizeData)

lemma timerInv_run: "timerInv st \<Longrightarrow> run U es st = Inr st' \<Longrightarrow> timerInv st'"
proof (induction es arbitrary: st)
  case Nil
  then show ?case by simp
next
  case (Cons e es)
  from Cons.prems(2) obtain st1 where
    e: "step U e st = Inr st1" and es: "run U es st1 = Inr st'"
    by (auto split: sum.splits)
  from Cons.prems(1) e have "timerInv st1"
    by (rule timerInv_step)
  then show ?case
    using es by (rule Cons.IH)
qed

lemma timerInv_reachable: "run U es initWheel = Inr st \<Longrightarrow> timerInv st"
  using timerInv_init by (rule timerInv_run)

section \<open>The spin-start effect\<close>

lemma js_index_num_nat:
  "k < length xs \<Longrightarrow> js_index_num xs (Num (real k)) = Some (xs ! k)"
  by (simp add: js_index_num_def js_index_def)

lemma random_index_in_range:
  assumes "0 \<le> r" and "r < 1" and "xs \<noteq> []"
  shows "0 \<le> \<lfloor>r * real (length xs)\<rfloor> \<and> \<lfloor>r * real (length xs)\<rfloor> < int (length xs)"
proof -
  from assms(3) have pos: "0 < real (length xs)"
    by simp
  with assms(1) have "0 \<le> r * real (length xs)"
    by simp
  then have lo: "0 \<le> \<lfloor>r * real (length xs)\<rfloor>"
    by simp
  from assms(2) pos have "r * real (length xs) < 1 * real (length xs)"
    by (rule mult_strict_right_mono)
  then have "r * real (length xs) < of_int (int (length xs))"
    by simp
  then have "\<lfloor>r * real (length xs)\<rfloor> < int (length xs)"
    by (simp only: floor_less_iff)
  with lo show ?thesis
    by simp
qed

lemma slotBaseAngle_floor:
  assumes "0 < q"
  shows "\<lfloor>slotBaseAngle slot q / (360 / q)\<rfloor> = int slot"
proof -
  from assms have a: "slotBaseAngle slot q / (360 / q) = real slot + 1 / 2"
    by (simp add: slotBaseAngle_def field_simps)
  have b: "\<lfloor>real slot + 1 / 2\<rfloor> = int slot"
    by linarith
  show ?thesis
    unfolding a by (rule b)
qed

text \<open>
  Claim C1. When a spin starts for a valid prize index \<open>k\<close> whose row is not empty, then for
  every random draw \<open>r\<close> in \<open>[0, 1)\<close> the slot read at line 188 is an element of row \<open>k\<close> of
  the prize map, and it is the slot handed to \<^verbatim>\<open>getRotationDegrees\<close> for the final rotation.
  With the base angle of the specification, the base component of that slot lies in the
  slot's own span: dividing it by the slot width and rounding down gives the slot back.
\<close>

theorem spin_slot_in_prize_row:
  assumes "mustStartSpinning p" and "\<not> isCurrentlySpinning st"
    and "k < length (prizeMap st)" and "prizeNumber p = Num (real k)"
    and "prizeMap st ! k \<noteq> []" and "0 \<le> r" and "r < 1"
  shows "\<exists>slot. slot \<in> set (prizeMap st ! k) \<and>
           js_index (prizeMap st ! k) \<lfloor>r * real (length (prizeMap st ! k))\<rfloor> = Some slot \<and>
           (\<forall>q. getQuantity U (prizeMap st) = Num q \<longrightarrow>
              finalRotationDegrees (spinStartEffect U p r st) =
                getRotationDegrees U (Some slot) (Num q) None \<and>
              (0 < q \<longrightarrow> \<lfloor>slotBaseAngle slot q / (360 / q)\<rfloor> = int slot))"
proof -
  let ?row = "prizeMap st ! k"
  let ?i = "\<lfloor>r * real (length ?row)\<rfloor>"
  have rng: "0 \<le> ?i \<and> ?i < int (length ?row)"
    using assms(6,7,5) by (rule random_index_in_range)
  then have sel: "js_index ?row ?i = Some (?row ! nat ?i)"
    by (simp add: js_index_def)
  from rng have mem: "?row ! nat ?i \<in> set ?row"
    by (simp add: nat_less_iff)
  have row: "js_index_num (prizeMap st) (prizeNumber p) = Some ?row"
    using assms(3,4) by (simp add: js_index_num_nat)
  from assms(3) have ne: "prizeMap st \<noteq> []"
    by auto
  have fin: "finalRotationDegrees (spinStartEffect U p r st) =
      getRotationDegrees U (Some (?row ! nat ?i)) (Num q) None"
    if "getQuantity U (prizeMap st) = Num q" for q
    using that assms(1,2,5) ne row sel
    by (simp add: spinStartEffect_def Let_def startSpinning_def)
  from sel mem fin slotBaseAngle_floor show ?thesis
    by blast
qed

text \<open>Weights 1 and 3, prize 1, draw one half: slot 2, base angle 225 degrees.\<close>

theorem spin_slot_in_prize_row_witness:
  "(1::nat) < length [[0::nat], [1, 2, 3]] \<and> (0::real) \<le> 1 / 2 \<and> (1::real) / 2 < 1 \<and>
   finalRotationDegrees
     (spinStartEffect exampleUtils
        \<lparr>mustStartSpinning = True, prizeNumber = Num 1, data = [],
         startingOptionIndex = Num (- 1)\<rparr>
        (1 / 2) (initWheel\<lparr>prizeMap := [[0], [1, 2, 3]]\<rparr>)) = Num 225"
proof -
  let ?p = "\<lparr>mustStartSpinning = True, prizeNumber = Num 1, data = [],
             startingOptionIndex = Num (- 1)\<rparr>"
  let ?st = "initWheel\<lparr>prizeMap := [[0], [1, 2, 3]]\<rparr>"
  have "\<exists>slot. slot \<in> set (prizeMap ?st ! 1) \<and>
           js_index (prizeMap ?st ! 1) \<lfloor>1 / 2 * real (length (prizeMap ?st ! 1))\<rfloor> = Some slot \<and>
           (\<forall>q. getQuantity exampleUtils (prizeMap ?st) = Num q \<longrightarrow>
              finalRotationDegrees (spinStartEffect exampleUtils ?p (1 / 2) ?st) =
                getRotationDegrees exampleUtils (Some slot) (Num q) None \<and>
              (0 < q \<longrightarrow> \<lfloor>slotBaseAngle slot q / (360 / q)\<rfloor> = int slot))"
    by (rule spin_slot_in_prize_row) (simp_all add: initWheel_def)
  then obtain slot where
    s: "js_index [1, 2, 3 :: nat] \<lfloor>(1::real) / 2 * 3\<rfloor> = Some slot"
    and f: "finalRotationDegrees (spinStartEffect exampleUtils ?p (1 / 2) ?st) =
              getRotationDegrees exampleUtils (Some slot) (Num 4) None"
    by auto
  have "\<lfloor>(1::real) / 2 * 3\<rfloor> = 1"
    by linarith
  with s have "slot = 2"
    by (simp add: js_index_def)
  with f show ?thesis
    by (simp add: slotBaseAngle_def)
qed

lemma buildPrizeMap_empty: "buildPrizeMap [] = []"
  by (simp add: buildPrizeMap_def)

lemma buildPrizeMap_one_three:
  "buildPrizeMap [\<lparr>optionSize = Some (Num 1)\<rparr>, \<lparr>optionSize = Some (Num 3)\<rparr>] =
     [[0], [1, 2, 3]]"
  by (simp add: buildPrizeMap_def loop_1_Cons slotCount_def sizeOrOne_def upt_rec
        del: loop_1.simps(2))

lemma buildPrizeMap_negative_last:
  "buildPrizeMap [\<lparr>optionSize = None\<rparr>, \<lparr>optionSize = Some (Num (- 1))\<rparr>] = [[0], []]"
  by (simp add: buildPrizeMap_def loop_1_Cons slotCount_def sizeOrOne_def
        del: loop_1.simps(2))

text \<open>
  Claim C3. When the effect runs on an invalid spin request (the prize map is empty, or
  the prize number is \<^verbatim>\<open>NaN\<close>, negative, beyond the last segment or not an integer, or the
  row of the prize number is empty), it returns before its first state update: the whole
  state, with the rotation angles, the spin flags and the timer, is unchanged.
\<close>

theorem invalid_spin_request_skipped:
  assumes "prizeMap st = [] \<or>
           prizeNumber p = NaN \<or>
           (\<exists>v. prizeNumber p = Num v \<and>
              (v < 0 \<or> real (length (prizeMap st)) \<le> v \<or> of_int \<lfloor>v\<rfloor> \<noteq> v)) \<or>
           (\<exists>k < length (prizeMap st). prizeNumber p = Num (real k) \<and> prizeMap st ! k = [])"
  shows "spinStartEffect U p r st = st"
proof -
  have out: "js_index_num (prizeMap st) (Num v) = None"
    if "v < 0 \<or> real (length (prizeMap st)) \<le> v \<or> of_int \<lfloor>v\<rfloor> \<noteq> v" for v
  proof (cases "of_int \<lfloor>v\<rfloor> = v")
    case True
    with that have "v < 0 \<or> real (length (prizeMap st)) \<le> v"
      by simp
    then have "\<lfloor>v\<rfloor> < 0 \<or> int (length (prizeMap st)) \<le> \<lfloor>v\<rfloor>"
      by (auto simp: le_floor_iff floor_less_iff)
    with True show ?thesis
      by (auto simp: js_index_num_def js_index_def)
  next
    case False
    then show ?thesis
      by (simp add: js_index_num_def)
  qed
  from assms consider
      (empty) "prizeMap st = []"
    | (nan) "prizeNumber p = NaN"
    | (range) v where "prizeNumber p = Num v"
        and "v < 0 \<or> real (length (prizeMap st)) \<le> v \<or> of_int \<lfloor>v\<rfloor> \<noteq> v"
    | (row) k where "k < length (prizeMap st)" and "prizeNumber p = Num (real k)"
        and "prizeMap st ! k = []"
    by blast
  then show ?thesis
  proof cases
    case empty
    then show ?thesis
      by (simp add: spinStartEffect_def)
  next
    case nan
    then show ?thesis
      by (simp add: spinStartEffect_def js_index_num_def)
  next
    case range
    then show ?thesis
      using out [of v] by (simp add: spinStartEffect_def)
  next
    case row
    then show ?thesis
      by (simp add: spinStartEffect_def js_index_num_nat)
  qed
qed

text \<open>Prize number 5 on the one-segment prize map of the first render.\<close>

theorem invalid_spin_request_skipped_witness:
  "real (length (prizeMap initWheel)) \<le> 5 \<and>
   spinStartEffect exampleUtils
     \<lparr>mustStartSpinning = True, prizeNumber = Num 5, data = [],
      startingOptionIndex = Num (- 1)\<rparr> 0 initWheel = initWheel"
proof -
  have h: "real (length (prizeMap initWheel)) \<le> 5"
    by (simp add: initWheel_def)
  then show ?thesis
    using invalid_spin_request_skipped [of initWheel
        "\<lparr>mustStartSpinning = True, prizeNumber = Num 5, data = [],
          startingOptionIndex = Num (- 1)\<rparr>" exampleUtils 0]
    by auto
qed

text \<open>
  Claim C2 does not hold of the code. The test \<^verbatim>\<open>Number.isNaN(totalQuantity)\<close> of line 190
  comes after \<^verbatim>\<open>setIsCurrentlySpinning(true)\<close> and \<^verbatim>\<open>startSpinning()\<close>: when the quantity is
  \<^verbatim>\<open>NaN\<close> on a valid request, the wheel is marked as spinning, the timer is scheduled and
  armed, and the completion callback runs when it fires. Only the final rotation is left
  as it was.
\<close>

theorem nan_quantity_spin_started:
  assumes "getQuantity U (prizeMap st) = NaN"
    and "mustStartSpinning p" and "\<not> isCurrentlySpinning st"
    and "k < length (prizeMap st)" and "prizeNumber p = Num (real k)"
    and "prizeMap st ! k \<noteq> []"
  shows "spinStartEffect U p r st = startSpinning (st\<lparr>isCurrentlySpinning := True\<rparr>) \<and>
         isCurrentlySpinning (spinStartEffect U p r st) \<and>
         hasStartedSpinning (spinStartEffect U p r st) \<and>
         mustStopSpinning (spinStartEffect U p r st) \<and>
         pendingTimers (spinStartEffect U p r st) = pendingTimers st + 1 \<and>
         finalRotationDegrees (spinStartEffect U p r st) = finalRotationDegrees st \<and>
         stopCalls (timerFires (spinStartEffect U p r st)) = stopCalls st + 1"
proof -
  from assms(4) have ne: "prizeMap st \<noteq> []"
    by auto
  have row: "js_index_num (prizeMap st) (prizeNumber p) = Some (prizeMap st ! k)"
    using assms(4,5) by (simp add: js_index_num_nat)
  have eq: "spinStartEffect U p r st = startSpinning (st\<lparr>isCurrentlySpinning := True\<rparr>)"
    using assms(1,2,3,6) ne row by (simp add: spinStartEffect_def Let_def)
  show ?thesis
    unfolding eq by (simp add: startSpinning_def timerFires_def timerCallback_def)
qed

text \<open>
  Data with a negative weight on the last segment gives the prize map \<open>[[0], []]\<close>; a
  quantity read from the last slot of the last row is \<^verbatim>\<open>NaN\<close> there.
\<close>

theorem nan_quantity_spin_started_witness:
  "getQuantity lastSlotUtils
     (buildPrizeMap [\<lparr>optionSize = None\<rparr>, \<lparr>optionSize = Some (Num (- 1))\<rparr>]) = NaN \<and>
   isCurrentlySpinning
     (spinStartEffect lastSlotUtils
        \<lparr>mustStartSpinning = True, prizeNumber = Num 0, data = [],
         startingOptionIndex = Num (- 1)\<rparr> 0
        (initWheel\<lparr>prizeMap :=
           buildPrizeMap [\<lparr>optionSize = None\<rparr>, \<lparr>optionSize = Some (Num (- 1))\<rparr>]\<rparr>)) \<and>
   stopCalls
     (timerFires
       (spinStartEffect lastSlotUtils
          \<lparr>mustStartSpinning = True, prizeNumber = Num 0, data = [],
           startingOptionIndex = Num (- 1)\<rparr> 0
          (initWheel\<lparr>prizeMap :=
             buildPrizeMap [\<lparr>optionSize = None\<rparr>, \<lparr>optionSize = Some (Num (- 1))\<rparr>]\<rparr>))) = 1"
  using nan_quantity_spin_started [of lastSlotUtils
      "initWheel\<lparr>prizeMap := [[0], []]\<rparr>"
      "\<lparr>mustStartSpinning = True, prizeNumber = Num 0, data = [],
        startingOptionIndex = Num (- 1)\<rparr>" 0 0]
  by (simp add: buildPrizeMap_negative_last initWheel_def startSpinning_def timerFires_def
        timerCallback_def)

text \<open>
  Claim C5 does not hold of the code. With an empty \<^verbatim>\<open>data\<close> and a starting option index
  of 0, \<^verbatim>\<open>setStartingOption\<close> computes \<^verbatim>\<open>0 % 0\<close>, reads \<^verbatim>\<open>optionMap[NaN]\<close> and indexes the
  \<^verbatim>\<open>undefined\<close> it gets: the normalisation effect throws a \<^verbatim>\<open>TypeError\<close>, whatever the
  helpers and the state are.
\<close>

theorem empty_data_starting_option_throws:
  "normalizeData U
     \<lparr>mustStartSpinning = b, prizeNumber = n, data = [], startingOptionIndex = Num 0\<rparr> st =
   Inl TypeError"
  by (simp add: normalizeData_def setStartingOption_def js_rem_def buildPrizeMap_empty)

section \<open>Completion, edges and the timer\<close>

lemma first_spin:
  "renderTrigger exampleUtils spinProps (1 / 2) initWheel =
     initWheel\<lparr>finalRotationDegrees := Num 180, hasStartedSpinning := True,
       isCurrentlySpinning := True, mustStopSpinning := True,
       depMustStartSpinning := Some True, pendingTimers := 1, spinStarts := 1\<rparr>"
  by (simp add: renderTrigger_def spinStartEffect_def initWheel_def js_index_num_def
        js_index_def startSpinning_def slotBaseAngle_def)

text \<open>
  Claim C7. In every reachable state with a spin in progress (its timer scheduled),
  \<^verbatim>\<open>hasStoppedSpinning\<close> is false; when the timer fires it becomes true, and the effect on
  \<^verbatim>\<open>[hasStoppedSpinning]\<close> then sets the start rotation to exactly the final rotation of
  the spin, leaves the final rotation alone and clears \<^verbatim>\<open>isCurrentlySpinning\<close>.
\<close>

theorem completed_spin_start_equals_target:
  assumes "run U es initWheel = Inr st" and "pendingTimers st = 1"
  shows "\<not> hasStoppedSpinning st \<and>
         hasStoppedSpinning (timerFires st) \<and>
         startRotationDegrees (stoppedEffect (timerFires st)) = finalRotationDegrees st \<and>
         finalRotationDegrees (stoppedEffect (timerFires st)) = finalRotationDegrees st \<and>
         \<not> isCurrentlySpinning (stoppedEffect (timerFires st))"
proof -
  from assms(1) have "timerInv st"
    by (rule timerInv_reachable)
  with assms(2) have "mustStopSpinning st" and "\<not> hasStoppedSpinning st"
    by (auto simp: timerInv_def)
  with assms(2) show ?thesis
    by (simp add: timerFires_def timerCallback_def stoppedEffect_def)
qed

text \<open>One spin of the one-segment wheel: it settles at 180 degrees.\<close>

theorem completed_spin_start_equals_target_witness:
  "pendingTimers (renderTrigger exampleUtils spinProps (1 / 2) initWheel) = 1 \<and>
   startRotationDegrees
     (stoppedEffect (timerFires (renderTrigger exampleUtils spinProps (1 / 2) initWheel))) =
   Num 180"
proof -
  let ?st = "renderTrigger exampleUtils spinProps (1 / 2) initWheel"
  have r: "run exampleUtils [Render spinProps (1 / 2)] initWheel = Inr ?st"
    by simp
  have p: "pendingTimers ?st = 1"
    by (simp add: first_spin)
  have "finalRotationDegrees ?st = Num 180"
    by (simp add: first_spin)
  with completed_spin_start_equals_target [OF r p] p show ?thesis
    by simp
qed

lemma spinStartEffect_valid:
  assumes "mustStartSpinning p" and "\<not> isCurrentlySpinning st"
    and "k < length (prizeMap st)" and "prizeNumber p = Num (real k)"
    and "prizeMap st ! k \<noteq> []"
  shows "spinStartEffect U p r st =
     (let st1 = startSpinning (st\<lparr>isCurrentlySpinning := True\<rparr>);
          totalQuantity = getQuantity U (prizeMap st)
      in if totalQuantity = NaN then st1
         else st1\<lparr>finalRotationDegrees :=
                   getRotationDegrees U
                     (js_index (prizeMap st ! k) \<lfloor>r * real (length (prizeMap st ! k))\<rfloor>)
                     totalQuantity None\<rparr>)"
proof -
  from assms(3) have ne: "prizeMap st \<noteq> []"
    by auto
  have row: "js_index_num (prizeMap st) (prizeNumber p) = Some (prizeMap st ! k)"
    using assms(3,4) by (simp add: js_index_num_nat)
  show ?thesis
    using assms(1,2,5) ne row by (simp add: spinStartEffect_def Let_def)
qed

text \<open>
  Claim C8. The spin-start effect is edge-triggered. A render whose trigger value differs
  from the remembered one runs the effect body and remembers the new value. On an edge to
  true (from false, or at mount) with the wheel idle and a valid request, the spin starts:
  \<^verbatim>\<open>startSpinning\<close> is called once, one timer is scheduled, and the target rotation is
  computed from the slot of the draw of that render. A further render with the trigger
  still true starts no spin, schedules no timer and leaves the target rotation as it is,
  whatever its draw and its other props are. A render whose trigger value equals the
  remembered one changes nothing; the effect body changes nothing while the wheel is
  spinning, and nothing when the trigger is false.
\<close>

theorem spin_start_edge_triggered:
  "(depMustStartSpinning st = Some (mustStartSpinning p) \<longrightarrow> renderTrigger U p r st = st) \<and>
   (isCurrentlySpinning st \<longrightarrow> spinStartEffect U p r st = st) \<and>
   (\<not> mustStartSpinning p \<longrightarrow> spinStartEffect U p r st = st) \<and>
   (mustStartSpinning p' = mustStartSpinning p \<longrightarrow>
      renderTrigger U p' r' (renderTrigger U p r st) = renderTrigger U p r st) \<and>
   (depMustStartSpinning st \<noteq> Some (mustStartSpinning p) \<longrightarrow>
      renderTrigger U p r st =
        (spinStartEffect U p r st)\<lparr>depMustStartSpinning := Some (mustStartSpinning p)\<rparr>) \<and>
   (depMustStartSpinning st \<noteq> Some True \<and> mustStartSpinning p \<and>
    \<not> isCurrentlySpinning st \<and> k < length (prizeMap st) \<and>
    prizeNumber p = Num (real k) \<and> prizeMap st ! k \<noteq> [] \<longrightarrow>
      isCurrentlySpinning (renderTrigger U p r st) \<and>
      hasStartedSpinning (renderTrigger U p r st) \<and>
      depMustStartSpinning (renderTrigger U p r st) = Some True \<and>
      spinStarts (renderTrigger U p r st) = spinStarts st + 1 \<and>
      pendingTimers (renderTrigger U p r st) = pendingTimers st + 1 \<and>
      (\<forall>q. getQuantity U (prizeMap st) = Num q \<longrightarrow>
         finalRotationDegrees (renderTrigger U p r st) =
           getRotationDegrees U
             (js_index (prizeMap st ! k) \<lfloor>r * real (length (prizeMap st ! k))\<rfloor>)
             (Num q) None) \<and>
      (mustStartSpinning p' \<longrightarrow>
         spinStarts (renderTrigger U p' r' (renderTrigger U p r st)) = spinStarts st + 1 \<and>
         pendingTimers (renderTrigger U p' r' (renderTrigger U p r st)) =
           pendingTimers st + 1 \<and>
         finalRotationDegrees (renderTrigger U p' r' (renderTrigger U p r st)) =
           finalRotationDegrees (renderTrigger U p r st)))"
proof -
  have a: "depMustStartSpinning st = Some (mustStartSpinning p) \<longrightarrow>
      renderTrigger U p r st = st"
    by (simp add: renderTrigger_def)
  have b: "isCurrentlySpinning st \<longrightarrow> spinStartEffect U p r st = st"
    by (simp add: spinStartEffect_def)
  have c: "\<not> mustStartSpinning p \<longrightarrow> spinStartEffect U p r st = st"
    by (simp add: spinStartEffect_def)
  have d: "renderTrigger U p' r' (renderTrigger U p r st) = renderTrigger U p r st"
    if "mustStartSpinning p' = mustStartSpinning p" for p' r'
    using that by (simp add: renderTrigger_def)
  have e: "depMustStartSpinning st \<noteq> Some (mustStartSpinning p) \<longrightarrow>
      renderTrigger U p r st =
        (spinStartEffect U p r st)\<lparr>depMustStartSpinning := Some (mustStartSpinning p)\<rparr>"
    by (simp add: renderTrigger_def)
  have f: "isCurrentlySpinning (renderTrigger U p r st) \<and>
      hasStartedSpinning (renderTrigger U p r st) \<and>
      depMustStartSpinning (renderTrigger U p r st) = Some True \<and>
      spinStarts (renderTrigger U p r st) = spinStarts st + 1 \<and>
      pendingTimers (renderTrigger U p r st) = pendingTimers st + 1 \<and>
      (\<forall>q. getQuantity U (prizeMap st) = Num q \<longrightarrow>
         finalRotationDegrees (renderTrigger U p r st) =
           getRotationDegrees U
             (js_index (prizeMap st ! k) \<lfloor>r * real (length (prizeMap st ! k))\<rfloor>)
             (Num q) None) \<and>
      (mustStartSpinning p' \<longrightarrow>
         spinStarts (renderTrigger U p' r' (renderTrigger U p r st)) = spinStarts st + 1 \<and>
         pendingTimers (renderTrigger U p' r' (renderTrigger U p r st)) =
           pendingTimers st + 1 \<and>
         finalRotationDegrees (renderTrigger U p' r' (renderTrigger U p r st)) =
           finalRotationDegrees (renderTrigger U p r st))"
    if h: "depMustStartSpinning st \<noteq> Some True" "mustStartSpinning p"
      "\<not> isCurrentlySpinning st" "k < length (prizeMap st)"
      "prizeNumber p = Num (real k)" "prizeMap st ! k \<noteq> []"
  proof -
    have eff: "spinStartEffect U p r st =
       (let st1 = startSpinning (st\<lparr>isCurrentlySpinning := True\<rparr>);
            totalQuantity = getQuantity U (prizeMap st)
        in if totalQuantity = NaN then st1
           else st1\<lparr>finalRotationDegrees :=
                     getRotationDegrees U
                       (js_index (prizeMap st ! k) \<lfloor>r * real (length (prizeMap st ! k))\<rfloor>)
                       totalQuantity None\<rparr>)"
      using h(2-6) by (rule spinStartEffect_valid)
    have rt: "renderTrigger U p r st =
        (spinStartEffect U p r st)\<lparr>depMustStartSpinning := Some True\<rparr>"
      using h(1,2) by (simp add: renderTrigger_def)
    have first: "isCurrentlySpinning (renderTrigger U p r st) \<and>
      hasStartedSpinning (renderTrigger U p r st) \<and>
      depMustStartSpinning (renderTrigger U p r st) = Some True \<and>
      spinStarts (renderTrigger U p r st) = spinStarts st + 1 \<and>
      pendingTimers (renderTrigger U p r st) = pendingTimers st + 1 \<and>
      (\<forall>q. getQuantity U (prizeMap st) = Num q \<longrightarrow>
         finalRotationDegrees (renderTrigger U p r st) =
           getRotationDegrees U
             (js_index (prizeMap st ! k) \<lfloor>r * real (length (prizeMap st ! k))\<rfloor>)
             (Num q) None)"
      unfolding rt eff by (simp add: Let_def startSpinning_def)
    have again: "renderTrigger U p' r' (renderTrigger U p r st) = renderTrigger U p r st"
      if "mustStartSpinning p'"
      using that h(2) by (intro d) simp
    from first again show ?thesis
      by simp
  qed
  from a b c d e f show ?thesis
    by blast
qed

text \<open>
  A first render with the trigger false, then the edge to true: one spin, target 180
  degrees. A second render with the trigger still true, and the effect body with the
  trigger false, change nothing.
\<close>

theorem spin_start_edge_triggered_witness:
  "depMustStartSpinning (renderTrigger exampleUtils idleProps (1 / 4) initWheel) = Some False \<and>
   spinStarts (renderTrigger exampleUtils idleProps (1 / 4) initWheel) = 0 \<and>
   spinStarts (renderTrigger exampleUtils spinProps (1 / 2)
     (renderTrigger exampleUtils idleProps (1 / 4) initWheel)) = 1 \<and>
   finalRotationDegrees (renderTrigger exampleUtils spinProps (1 / 2)
     (renderTrigger exampleUtils idleProps (1 / 4) initWheel)) = Num 180 \<and>
   isCurrentlySpinning (renderTrigger exampleUtils spinProps (1 / 2)
     (renderTrigger exampleUtils idleProps (1 / 4) initWheel)) \<and>
   renderTrigger exampleUtils spinProps (3 / 4)
     (renderTrigger exampleUtils spinProps (1 / 2)
       (renderTrigger exampleUtils idleProps (1 / 4) initWheel)) =
   renderTrigger exampleUtils spinProps (1 / 2)
     (renderTrigger exampleUtils idleProps (1 / 4) initWheel) \<and>
   spinStartEffect exampleUtils spinProps (3 / 4)
     (renderTrigger exampleUtils spinProps (1 / 2)
       (renderTrigger exampleUtils idleProps (1 / 4) initWheel)) =
   renderTrigger exampleUtils spinProps (1 / 2)
     (renderTrigger exampleUtils idleProps (1 / 4) initWheel) \<and>
   spinStartEffect exampleUtils idleProps (1 / 2) initWheel = initWheel"
proof -
  let ?s0 = "renderTrigger exampleUtils idleProps (1 / 4) initWheel"
  let ?st = "renderTrigger exampleUtils spinProps (1 / 2) ?s0"
  have s0: "?s0 = initWheel\<lparr>depMustStartSpinning := Some False\<rparr>"
    by (simp add: renderTrigger_def spinStartEffect_def initWheel_def)
  have d0: "depMustStartSpinning ?s0 = Some False" and n0: "spinStarts ?s0 = 0"
    unfolding s0 by (simp_all add: initWheel_def)
  have h: "depMustStartSpinning ?s0 \<noteq> Some True \<and> mustStartSpinning spinProps \<and>
      \<not> isCurrentlySpinning ?s0 \<and> 0 < length (prizeMap ?s0) \<and>
      prizeNumber spinProps = Num (real (0::nat)) \<and> prizeMap ?s0 ! 0 \<noteq> []"
    unfolding s0 by (simp add: initWheel_def)
  have q: "getQuantity exampleUtils (prizeMap ?s0) = Num 1"
    unfolding s0 by (simp add: initWheel_def)
  from spin_start_edge_triggered
         [of ?s0 spinProps exampleUtils "1 / 2" spinProps "3 / 4" 0] h
  have run: "isCurrentlySpinning ?st" "spinStarts ?st = spinStarts ?s0 + 1"
    "\<forall>q. getQuantity exampleUtils (prizeMap ?s0) = Num q \<longrightarrow>
       finalRotationDegrees ?st =
         getRotationDegrees exampleUtils
           (js_index (prizeMap ?s0 ! 0) \<lfloor>1 / 2 * real (length (prizeMap ?s0 ! 0))\<rfloor>)
           (Num q) None"
    "depMustStartSpinning ?st = Some True"
    by blast+
  from run(3) q have "finalRotationDegrees ?st =
         getRotationDegrees exampleUtils
           (js_index (prizeMap ?s0 ! 0) \<lfloor>1 / 2 * real (length (prizeMap ?s0 ! 0))\<rfloor>)
           (Num 1) None"
    by blast
  then have fin: "finalRotationDegrees ?st = Num 180"
    unfolding s0 by (simp add: initWheel_def js_index_def slotBaseAngle_def)
  from run(2) n0 have n1: "spinStarts ?st = 1"
    by simp
  have d1: "depMustStartSpinning ?st = Some (mustStartSpinning spinProps)"
    using run(4) by simp
  from spin_start_edge_triggered
         [of ?st spinProps exampleUtils "3 / 4" spinProps "3 / 4" 0] d1 run(1)
  have same: "renderTrigger exampleUtils spinProps (3 / 4) ?st = ?st"
    and body: "spinStartEffect exampleUtils spinProps (3 / 4) ?st = ?st"
    by blast+
  from spin_start_edge_triggered
         [of initWheel idleProps exampleUtils "1 / 2" idleProps "1 / 2" 0]
  have idle: "spinStartEffect exampleUtils idleProps (1 / 2) initWheel = initWheel"
    by simp
  from d0 n0 n1 fin run(1) same body idle show ?thesis
    by blast
qed

text \<open>
  Claim C9. In every reachable state at most one timer is scheduled, and the calls of the
  completion callback plus the scheduled timers equal the spins started: a started spin
  has its timer pending or has had exactly one callback. No spin starts while a timer is
  pending, so no start overwrites the armed flag of a pending timer. Once the pending
  timer has fired, the callbacks equal the spins started, and a further firing adds none.
  The callback body run twice in a row has the effect of one run, and it does nothing
  when the armed flag is clear.
\<close>

theorem completion_callback_once:
  assumes "run U es initWheel = Inr st"
  shows "pendingTimers st \<le> 1 \<and>
         stopCalls st + pendingTimers st = spinStarts st \<and>
         mustStopSpinning st = (pendingTimers st = 1) \<and>
         (pendingTimers st = 1 \<longrightarrow> spinStartEffect U p r st = st) \<and>
         stopCalls (timerFires st) = spinStarts st \<and>
         pendingTimers (timerFires st) = 0 \<and>
         stopCalls (timerFires (timerFires st)) = stopCalls (timerFires st) \<and>
         timerCallback (timerCallback st) = timerCallback st \<and>
         (\<not> mustStopSpinning st \<longrightarrow> timerCallback st = st)"
proof -
  from assms have inv: "timerInv st"
    by (rule timerInv_reachable)
  then have a: "pendingTimers st \<le> 1"
    and b: "stopCalls st + pendingTimers st = spinStarts st"
    and c: "mustStopSpinning st = (pendingTimers st = 1)"
    and d: "pendingTimers st = 0 \<or> isCurrentlySpinning st"
    by (auto simp: timerInv_def)
  from d have e: "pendingTimers st = 1 \<longrightarrow> spinStartEffect U p r st = st"
    by (auto simp: spinStartEffect_spinning)
  from a b c have f: "stopCalls (timerFires st) = spinStarts st"
    and g: "pendingTimers (timerFires st) = 0"
    by (auto simp: timerFires_def timerCallback_def)
  from g have h: "stopCalls (timerFires (timerFires st)) = stopCalls (timerFires st)"
    by (simp add: timerFires_def [of "timerFires st"])
  have i: "timerCallback (timerCallback st) = timerCallback st"
    by (simp add: timerCallback_def)
  have j: "\<not> mustStopSpinning st \<longrightarrow> timerCallback st = st"
    by (simp add: timerCallback_def)
  from a b c e f g h i j show ?thesis
    by blast
qed

text \<open>
  A spin, its timer, the stop effect and a timer event with nothing scheduled; and the
  state right after the spin has started.
\<close>

theorem completion_callback_once_witness:
  "(\<exists>st. run exampleUtils
          [Render spinProps (1 / 2), TimerFires, StoppedEffect, TimerFires] initWheel = Inr st \<and>
        spinStarts st = 1 \<and> stopCalls st = 1 \<and> pendingTimers st = 0 \<and>
        stopCalls (timerFires st) = 1 \<and> timerCallback st = st) \<and>
   (\<exists>st. run exampleUtils [Render spinProps (1 / 2)] initWheel = Inr st \<and>
        pendingTimers st = 1 \<and> stopCalls st = 0 \<and>
        spinStartEffect exampleUtils spinProps (3 / 4) st = st \<and>
        stopCalls (timerFires st) = 1)"
proof -
  let ?es = "[Render spinProps (1 / 2), TimerFires, StoppedEffect, TimerFires]"
  let ?s1 = "renderTrigger exampleUtils spinProps (1 / 2) initWheel"
  let ?st = "timerFires (stoppedEffect (timerFires ?s1))"
  have r: "run exampleUtils ?es initWheel = Inr ?st"
    by simp
  have s: "spinStarts ?st = 1" and p: "pendingTimers ?st = 0"
    by (simp_all add: first_spin timerFires_def timerCallback_def stoppedEffect_def)
  from completion_callback_once [OF r, of spinProps 0] s p
  have "stopCalls ?st = 1" and "stopCalls (timerFires ?st) = 1" and "timerCallback ?st = ?st"
    by simp_all
  with r s p have a: "\<exists>st. run exampleUtils ?es initWheel = Inr st \<and>
        spinStarts st = 1 \<and> stopCalls st = 1 \<and> pendingTimers st = 0 \<and>
        stopCalls (timerFires st) = 1 \<and> timerCallback st = st"
    by blast
  have r1: "run exampleUtils [Render spinProps (1 / 2)] initWheel = Inr ?s1"
    by simp
  have s1: "spinStarts ?s1 = 1" and p1: "pendingTimers ?s1 = 1"
    by (simp_all add: first_spin)
  from completion_callback_once [OF r1, of spinProps "3 / 4"] s1 p1
  have "stopCalls ?s1 = 0" and "spinStartEffect exampleUtils spinProps (3 / 4) ?s1 = ?s1"
    and "stopCalls (timerFires ?s1) = 1"
    by simp_all
  with r1 p1 have b: "\<exists>st. run exampleUtils [Render spinProps (1 / 2)] initWheel = Inr st \<and>
        pendingTimers st = 1 \<and> stopCalls st = 0 \<and>
        spinStartEffect exampleUtils spinProps (3 / 4) st = st \<and>
        stopCalls (timerFires st) = 1"
    by blast
  from a b show ?thesis
    by (rule conjI)
qed

section \<open>The starting option\<close>

lemma js_rem_nonneg:
  assumes "0 \<le> a" and "0 < n"
  shows "js_rem a n = Some (int (nat a mod n))"
proof -
  have "sgn a * (\<bar>a\<bar> mod int n) = a mod int n"
  proof (cases "a = 0")
    case True
    then show ?thesis by simp
  next
    case False
    with assms(1) have "0 < a" by simp
    then show ?thesis by simp
  qed
  moreover from assms have "a mod int n = int (nat a mod n)"
    by (simp add: zmod_int)
  ultimately show ?thesis
    using assms(2) by (simp add: js_rem_def)
qed

lemma js_index_middle:
  "row \<noteq> [] \<Longrightarrow> js_index row (int (length row div 2)) = Some (row ! (length row div 2))"
  by (simp add: js_index_def)

text \<open>
  Claim C10. For a non-empty \<^verbatim>\<open>data\<close> and a starting option index \<open>s \<ge> 0\<close>, the
  normalisation sets the start rotation to \<^verbatim>\<open>getRotationDegrees\<close> of the element at position
  \<open>length div 2\<close> of the row at index \<open>\<lfloor>s\<rfloor> mod n\<close>, \<open>n\<close> the number of segments, with the
  quantity of the new prize map and no randomisation; that element exists when the row is
  not empty. For a negative index the first normalisation leaves the start rotation at 0.
\<close>

theorem starting_option_wraps:
  assumes "data p \<noteq> []"
  shows "(\<forall>s. startingOptionIndex p = Num s \<and> 0 \<le> s \<longrightarrow>
            (let optionMap = buildPrizeMap (data p);
                 idx = nat \<lfloor>s\<rfloor> mod length (data p);
                 row = optionMap ! idx;
                 startingOption = js_index row (int (length row div 2))
             in idx < length optionMap \<and>
                normalizeData U p st =
                  Inr (st\<lparr>prizeMap := optionMap,
                          startRotationDegrees :=
                            getRotationDegrees U startingOption (getQuantity U optionMap)
                              (Some False),
                          isDataUpdated := True\<rparr>) \<and>
                (row \<noteq> [] \<longrightarrow>
                   startingOption = Some (row ! (length row div 2)) \<and>
                   row ! (length row div 2) \<in> set row))) \<and>
         (\<forall>s. startingOptionIndex p = Num s \<and> s < 0 \<longrightarrow>
            normalizeData U p initWheel =
              Inr (initWheel\<lparr>prizeMap := buildPrizeMap (data p), isDataUpdated := True\<rparr>) \<and>
            startRotationDegrees
              (initWheel\<lparr>prizeMap := buildPrizeMap (data p), isDataUpdated := True\<rparr>) = Num 0)"
proof -
  let ?pm = "buildPrizeMap (data p)"
  from assms have n: "0 < length (data p)"
    by simp
  have len: "length ?pm = length (data p)"
    by (rule buildPrizeMap_length)
  have part1: "nat \<lfloor>s\<rfloor> mod length (data p) < length ?pm \<and>
      normalizeData U p st =
        Inr (st\<lparr>prizeMap := ?pm,
                startRotationDegrees :=
                  getRotationDegrees U
                    (js_index (?pm ! (nat \<lfloor>s\<rfloor> mod length (data p)))
                       (int (length (?pm ! (nat \<lfloor>s\<rfloor> mod length (data p))) div 2)))
                    (getQuantity U ?pm) (Some False),
                isDataUpdated := True\<rparr>)"
    if s: "startingOptionIndex p = Num s" "0 \<le> s" for s
  proof -
    let ?idx = "nat \<lfloor>s\<rfloor> mod length (data p)"
    from s(2) have "0 \<le> \<lfloor>s\<rfloor>"
      by simp
    then have rem: "js_rem \<lfloor>s\<rfloor> (length ?pm) = Some (int ?idx)"
      using n by (simp add: len js_rem_nonneg)
    from n have idx: "?idx < length ?pm"
      by (simp add: len)
    then have row: "js_index ?pm (int ?idx) = Some (?pm ! ?idx)"
      by (simp add: js_index_def)
    from s rem row have
      "setStartingOption U p (startingOptionIndex p) ?pm (st\<lparr>prizeMap := ?pm\<rparr>) =
         Inr (st\<lparr>prizeMap := ?pm,
                 startRotationDegrees :=
                   getRotationDegrees U
                     (js_index (?pm ! ?idx) (int (length (?pm ! ?idx) div 2)))
                     (getQuantity U ?pm) (Some False)\<rparr>)"
      by (simp add: setStartingOption_def Let_def)
    then have "normalizeData U p st =
        Inr (st\<lparr>prizeMap := ?pm,
                startRotationDegrees :=
                  getRotationDegrees U
                    (js_index (?pm ! ?idx) (int (length (?pm ! ?idx) div 2)))
                    (getQuantity U ?pm) (Some False),
                isDataUpdated := True\<rparr>)"
      by (simp add: normalizeData_def Let_def)
    with idx show ?thesis
      by simp
  qed
  have part2: "normalizeData U p initWheel =
        Inr (initWheel\<lparr>prizeMap := ?pm, isDataUpdated := True\<rparr>) \<and>
      startRotationDegrees (initWheel\<lparr>prizeMap := ?pm, isDataUpdated := True\<rparr>) = Num 0"
    if "startingOptionIndex p = Num s" "s < 0" for s
    using that by (simp add: normalizeData_def setStartingOption_def Let_def initWheel_def)
  have mid: "js_index row (int (length row div 2)) = Some (row ! (length row div 2)) \<and>
      row ! (length row div 2) \<in> set row" if "row \<noteq> []" for row :: "nat list"
    using that by (simp add: js_index_middle)
  from part1 part2 mid show ?thesis
    unfolding Let_def by blast
qed

text \<open>
  Weights 1 and 3. Starting option 3 wraps to segment 1, whose middle slot is 2; starting
  option -1 leaves the rotation at 0.
\<close>

theorem starting_option_wraps_witness:
  "normalizeData exampleUtils
     \<lparr>mustStartSpinning = False, prizeNumber = Num 0, data = wheelOneThree,
      startingOptionIndex = Num 3\<rparr> initWheel =
   Inr (initWheel\<lparr>prizeMap := [[0], [1, 2, 3]], startRotationDegrees := Num 225,
          isDataUpdated := True\<rparr>) \<and>
   normalizeData exampleUtils
     \<lparr>mustStartSpinning = False, prizeNumber = Num 0, data = wheelOneThree,
      startingOptionIndex = Num (- 1)\<rparr> initWheel =
   Inr (initWheel\<lparr>prizeMap := [[0], [1, 2, 3]], isDataUpdated := True\<rparr>)"
proof -
  let ?p = "\<lparr>mustStartSpinning = False, prizeNumber = Num 0, data = wheelOneThree,
      startingOptionIndex = Num 3\<rparr>"
  let ?q = "\<lparr>mustStartSpinning = False, prizeNumber = Num 0, data = wheelOneThree,
      startingOptionIndex = Num (- 1)\<rparr>"
  have d: "data ?p \<noteq> []" "data ?q \<noteq> []"
    by simp_all
  have s: "startingOptionIndex ?p = Num 3 \<and> (0::real) \<le> 3"
    by simp
  have t: "startingOptionIndex ?q = Num (- 1) \<and> (- 1::real) < 0"
    by simp
  have "length (data ?p) = 2" and "nat \<lfloor>3::real\<rfloor> = 3" and "(3::nat) mod 2 = 1"
    by simp_all
  then have m: "nat \<lfloor>3::real\<rfloor> mod length (data ?p) = 1"
    by (simp only:)
  have pm: "buildPrizeMap (data ?p) = [[0], [1, 2, 3]]" "buildPrizeMap (data ?q) = [[0], [1, 2, 3]]"
    by (simp_all add: buildPrizeMap_one_three)
  from starting_option_wraps [OF d(1), of exampleUtils initWheel] s
  have "normalizeData exampleUtils ?p initWheel =
          Inr (initWheel\<lparr>prizeMap := buildPrizeMap (data ?p),
                 startRotationDegrees :=
                   getRotationDegrees exampleUtils
                     (js_index (buildPrizeMap (data ?p) ! (nat \<lfloor>3::real\<rfloor> mod length (data ?p)))
                        (int (length (buildPrizeMap (data ?p) !
                           (nat \<lfloor>3::real\<rfloor> mod length (data ?p))) div 2)))
                     (getQuantity exampleUtils (buildPrizeMap (data ?p))) (Some False),
                 isDataUpdated := True\<rparr>)"
    unfolding Let_def by blast
  then have a: "normalizeData exampleUtils ?p initWheel =
      Inr (initWheel\<lparr>prizeMap := [[0], [1, 2, 3]], startRotationDegrees := Num 225,
             isDataUpdated := True\<rparr>)"
    unfolding m pm by (simp add: js_index_def slotBaseAngle_def)
  from starting_option_wraps [OF d(2), of exampleUtils initWheel] t
  have "normalizeData exampleUtils ?q initWheel =
      Inr (initWheel\<lparr>prizeMap := buildPrizeMap (data ?q), isDataUpdated := True\<rparr>)"
    by blast
  then have b: "normalizeData exampleUtils ?q initWheel =
      Inr (initWheel\<lparr>prizeMap := [[0], [1, 2, 3]], isDataUpdated := True\<rparr>)"
    unfolding pm .
  from a b show ?thesis
    by (rule conjI)
qed

end
